theory Spec2Isabelle
  imports Complex_Main "HOL-Library.Char_ord" "HOL-Library.List_Lexorder" "HOL-Library.Sublist"
begin

section \<open>Python values shared by the notebooks\<close>

text \<open>
  The exceptions of the host that the notebook code can raise. A function of the
  notebooks that can raise returns \<open>error + 'a\<close>, with \<open>Inl\<close> for the exception.
\<close>

datatype error =
    KeyError
  | IndexError
  | ValueError
  | FileNotFoundError
  | SameFileError
  | HostError string

text \<open>
  A Python \<open>dict\<close> (and \<open>OrderedDict\<close>) keeps its keys in insertion order:
  assigning to a key that is present replaces the value where the key stands,
  assigning to a new key appends it. It is modelled as the list of its items; a
  list that is a dictionary has distinct keys. \<open>dict_get\<close> is the lookup (\<open>None\<close>
  where \<open>d[k]\<close> raises \<open>KeyError\<close>), \<open>dict_get_default\<close> is \<open>d.get(k, v)\<close>.
\<close>

type_synonym ('k, 'v) dict = "('k \<times> 'v) list"

fun dict_set :: "('k, 'v) dict \<Rightarrow> 'k \<Rightarrow> 'v \<Rightarrow> ('k, 'v) dict" where
  "dict_set [] k v = [(k, v)]"
| "dict_set ((k', v') # d) k v =
     (if k' = k then (k, v) # d else (k', v') # dict_set d k v)"

definition dict_get :: "('k, 'v) dict \<Rightarrow> 'k \<Rightarrow> 'v option" where
  "dict_get d k = map_of d k"

definition dict_get_default :: "('k, 'v) dict \<Rightarrow> 'k \<Rightarrow> 'v \<Rightarrow> 'v" where
  "dict_get_default d k v = (case dict_get d k of None \<Rightarrow> v | Some w \<Rightarrow> w)"

definition dict_values :: "('k, 'v) dict \<Rightarrow> 'v list" where
  "dict_values d = map snd d"

definition dict_keys :: "('k, 'v) dict \<Rightarrow> 'k list" where
  "dict_keys d = map fst d"

section \<open>model-construction: MySequential\<close>

text \<open>
  \<^verbatim>\<open>
  class MySequential(nn.Block):
      def add(self, block):
          self._children[block.name] = block
      def forward(self, x):
          for block in self._children.values():
              x = block(x)
          return x
  \<close>
  A block is its name and the function it computes. The instance is its
  \<open>_children\<close>, an \<open>OrderedDict\<close> that is empty when the instance is made.
\<close>

datatype 'a block = Block (name: string) (call: "'a \<Rightarrow> 'a")

type_synonym 'a MySequential = "(string, 'a block) dict"

definition MySequential_new :: "'a MySequential" where
  "MySequential_new = []"

definition add :: "'a MySequential \<Rightarrow> 'a block \<Rightarrow> 'a MySequential" where
  "add self block = dict_set self (name block) block"

definition forward :: "'a MySequential \<Rightarrow> 'a \<Rightarrow> 'a" where
  "forward self x = fold (\<lambda>block x. call block x) (dict_values self) x"

text \<open>The blocks \<open>b\<^sub>1, ..., b\<^sub>n\<close> added one after the other to a new instance.\<close>

definition add_all :: "'a block list \<Rightarrow> 'a MySequential" where
  "add_all blocks = foldl add MySequential_new blocks"

section \<open>kaggle-gluon-cifar10: the submission file\<close>












section \<open>Finding Synonyms and Analogies (in read-write.ipynb): TokenEmbedding\<close>

text \<open>
  \<^verbatim>\<open>
  class TokenEmbedding:
      def __init__(self, embedding_name):
          self.idx_to_token, self.idx_to_vec = self._load_embedding(embedding_name)
          self.unknown_idx = 0
          self.token_to_idx = {token: idx for idx, token in enumerate(self.idx_to_token)}

      def _load_embedding(self, embedding_name):
          idx_to_token, idx_to_vec = ['<unk>'], []
          data_dir = d2l.download_extract(embedding_name)
          with open(os.path.join(data_dir, 'vec.txt'), 'r') as f:
              for line in f:
                  elems = line.rstrip().split(' ')
                  token, elems = elems[0], [float(elem) for elem in elems[1:]]
                  if len(elems) > 1:
                      idx_to_token.append(token)
                      idx_to_vec.append(elems)
          idx_to_vec = [[0] * len(idx_to_vec[0])] + idx_to_vec
          return idx_to_token, np.array(idx_to_vec)

      def __getitem__(self, tokens):
          indices = [self.token_to_idx.get(token, self.unknown_idx) for token in tokens]
          vecs = self.idx_to_vec[np.array(indices)]
          return vecs

      def __len__(self):
          return len(self.idx_to_token)
  \<close>
  The model starts from the lines of \<open>vec.txt\<close>. Numbers are real numbers: the
  rounding of floating point is not modelled. Python's \<open>float\<close> is a parameter,
  \<open>None\<close> where it raises \<open>ValueError\<close>. \<open>rstrip\<close> removes the trailing white space
  of the ASCII range, \<open>split\<close> cuts at every separator (so two separators in a row
  give an empty element). \<open>np.array\<close> takes rows of one length only, and indexing
  an array with a list of indices gives the rows at these indices, or raises when
  one is out of range.
\<close>

definition isspace :: "char \<Rightarrow> bool" where
  "isspace c = (let n = (of_char c :: nat) in (9 \<le> n \<and> n \<le> 13) \<or> (28 \<le> n \<and> n \<le> 32))"

definition rstrip :: "string \<Rightarrow> string" where
  "rstrip s = rev (dropWhile isspace (rev s))"

fun split :: "char \<Rightarrow> string \<Rightarrow> string list" where
  "split sep [] = [[]]"
| "split sep (c # cs) =
     (if c = sep then [] # split sep cs
      else (case split sep cs of [] \<Rightarrow> [[c]] | w # ws \<Rightarrow> (c # w) # ws))"

fun floats :: "(string \<Rightarrow> real option) \<Rightarrow> string list \<Rightarrow> error + real list" where
  "floats float [] = Inr []"
| "floats float (elem # elems) =
     (case float elem of
        None \<Rightarrow> Inl ValueError
      | Some v \<Rightarrow> (case floats float elems of Inl e \<Rightarrow> Inl e | Inr vs \<Rightarrow> Inr (v # vs)))"

record TokenEmbedding =
  idx_to_token :: "string list"
  idx_to_vec :: "real list list"
  unknown_idx :: nat
  token_to_idx :: "(string, nat) dict"

fun read_vec_lines ::
  "(string \<Rightarrow> real option) \<Rightarrow> string list \<Rightarrow> string list \<times> real list list \<Rightarrow>
   error + (string list \<times> real list list)" where
  "read_vec_lines float [] (toks, vecs) = Inr (toks, vecs)"
| "read_vec_lines float (line # f) (toks, vecs) =
     (case split CHR '' '' (rstrip line) of
        [] \<Rightarrow> Inl IndexError
      | token # rest \<Rightarrow>
          (case floats float rest of
             Inl e \<Rightarrow> Inl e
           | Inr elems \<Rightarrow>
               if length elems > 1
               then read_vec_lines float f (toks @ [token], vecs @ [elems])
               else read_vec_lines float f (toks, vecs)))"

definition np_array :: "real list list \<Rightarrow> error + real list list" where
  "np_array rows =
     (case rows of
        [] \<Rightarrow> Inr []
      | r0 # _ \<Rightarrow>
          if \<forall>r \<in> set rows. length r = length r0 then Inr rows else Inl ValueError)"

definition load_embedding ::
  "(string \<Rightarrow> real option) \<Rightarrow> string list \<Rightarrow> error + (string list \<times> real list list)" where
  "load_embedding float f =
     (case read_vec_lines float f ([''<unk>''], []) of
        Inl e \<Rightarrow> Inl e
      | Inr (toks, vecs) \<Rightarrow>
          (case vecs of
             [] \<Rightarrow> Inl IndexError
           | v # _ \<Rightarrow>
               (case np_array (replicate (length v) 0 # vecs) of
                  Inl e \<Rightarrow> Inl e
                | Inr a \<Rightarrow> Inr (toks, a))))"

definition enumerate_from0 :: "'a list \<Rightarrow> (nat \<times> 'a) list" where
  "enumerate_from0 xs = enumerate 0 xs"

definition TokenEmbedding_init ::
  "(string \<Rightarrow> real option) \<Rightarrow> string list \<Rightarrow> error + TokenEmbedding" where
  "TokenEmbedding_init float f =
     (case load_embedding float f of
        Inl e \<Rightarrow> Inl e
      | Inr (toks, vecs) \<Rightarrow>
          Inr \<lparr>idx_to_token = toks, idx_to_vec = vecs, unknown_idx = 0,
               token_to_idx = foldl (\<lambda>d (idx, token). dict_set d token idx) []
                                (enumerate 0 toks)\<rparr>)"

fun take_rows :: "'a list \<Rightarrow> nat list \<Rightarrow> error + 'a list" where
  "take_rows a [] = Inr []"
| "take_rows a (i # is) =
     (if i < length a
      then (case take_rows a is of Inl e \<Rightarrow> Inl e | Inr rs \<Rightarrow> Inr (a ! i # rs))
      else Inl IndexError)"

definition getitem :: "TokenEmbedding \<Rightarrow> string list \<Rightarrow> error + real list list" where
  "getitem self tokens =
     (let indices = map (\<lambda>token. dict_get_default (token_to_idx self) token (unknown_idx self))
                        tokens
      in take_rows (idx_to_vec self) indices)"

definition len :: "TokenEmbedding \<Rightarrow> nat" where
  "len self = length (idx_to_token self)"

text \<open>
  Python's \<open>float\<close> on the four strings the examples use; any other string is
  outside the examples.
\<close>

definition float_small :: "string \<Rightarrow> real option" where
  "float_small s =
     (if s = ''0'' then Some 0 else if s = ''1'' then Some 1
      else if s = ''2'' then Some 2 else if s = ''3'' then Some 3 else None)"


text \<open>
  \<open>__getitem__\<close> and \<open>__len__\<close> assign to no attribute: a call returns its value and
  leaves the instance as it was. \<open>after_calls\<close> is the instance after a sequence of
  such calls.
\<close>

datatype method_call = GetItem "string list" | Len

datatype method_result = Vecs "error + real list list" | Count nat

fun invoke :: "TokenEmbedding \<Rightarrow> method_call \<Rightarrow> method_result \<times> TokenEmbedding" where
  "invoke self (GetItem tokens) = (Vecs (getitem self tokens), self)"
| "invoke self Len = (Count (len self), self)"

definition after_calls :: "TokenEmbedding \<Rightarrow> method_call list \<Rightarrow> TokenEmbedding" where
  "after_calls self calls = foldl (\<lambda>s c. snd (invoke s c)) self calls"

section \<open>Finding Synonyms and Analogies (in read-write.ipynb): knn and get_analogy\<close>



definition topk :: "real list \<Rightarrow> nat \<Rightarrow> error + nat list" where
  "topk xs k =
     (let element_num = length xs;
          k' = (if k < 1 then element_num else k)
      in if 1 \<le> k' \<and> k' \<le> element_num
         then Inr (take k' (sort_key (\<lambda>i. - (xs ! i)) [0..<element_num]))
         else Inl (HostError ''MXNetError''))"






section \<open>model-construction: FixedHiddenMLP\<close>

text \<open>
  \<^verbatim>\<open>
  class FixedHiddenMLP(nn.Block):
      def __init__(self, **kwargs):
          super(FixedHiddenMLP, self).__init__(**kwargs)
          self.rand_weight = self.params.get_constant(
              'rand_weight', np.random.uniform(size=(20, 20)))
          self.dense = nn.Dense(20, activation='relu')

      def forward(self, x):
          x = self.dense(x)
          x = npx.relu(np.dot(x, self.rand_weight.data()) + 1)
          x = self.dense(x)
          while np.abs(x).sum() > 1:
              x /= 2
          return x.sum()
  \<close>
  An array is a matrix of real numbers (floating point is not modelled: no
  rounding, no overflow to \<open>inf\<close>, no \<open>nan\<close>). The layer \<open>self.dense\<close> with its
  parameters is a parameter of the model, a function on arrays that may raise (on
  a shape it does not accept); both calls go to the same layer. \<open>np.dot\<close> is the
  matrix product and raises on shapes that do not fit. The \<open>while\<close> loop is a
  partial function: \<open>None\<close> means that it runs forever.
\<close>

type_synonym ndarray = "real list list"

definition np_dot2 :: "ndarray \<Rightarrow> ndarray \<Rightarrow> error + ndarray" where
  "np_dot2 a b =
     (case b of
        [] \<Rightarrow> Inl (HostError ''MXNetError'')
      | b0 # _ \<Rightarrow>
          if (\<forall>r \<in> set a. length r = length b) \<and> (\<forall>r \<in> set b. length r = length b0)
          then Inr (map (\<lambda>r. map (\<lambda>j. sum_list (map2 (\<lambda>p q. p * q) r (map (\<lambda>br. br ! j) b)))
                                  [0..<length b0]) a)
          else Inl (HostError ''MXNetError''))"

definition relu :: "ndarray \<Rightarrow> ndarray" where
  "relu a = map (map (\<lambda>v. max v 0)) a"

definition np_abs :: "ndarray \<Rightarrow> ndarray" where
  "np_abs a = map (map abs) a"

definition np_sum :: "ndarray \<Rightarrow> real" where
  "np_sum a = sum_list (map sum_list a)"

partial_function (option) halve_while :: "ndarray \<Rightarrow> ndarray option" where
  "halve_while x =
     (if np_sum (np_abs x) > 1 then halve_while (map (map (\<lambda>v. v / 2)) x) else Some x)"

definition FixedHiddenMLP_forward ::
  "(ndarray \<Rightarrow> error + ndarray) \<Rightarrow> ndarray \<Rightarrow> ndarray \<Rightarrow> (error + real) option" where
  "FixedHiddenMLP_forward dense rand_weight x =
     (case dense x of
        Inl e \<Rightarrow> Some (Inl e)
      | Inr x1 \<Rightarrow>
          (case np_dot2 x1 rand_weight of
             Inl e \<Rightarrow> Some (Inl e)
           | Inr d \<Rightarrow>
               (case dense (relu (map (map (\<lambda>v. v + 1)) d)) of
                  Inl e \<Rightarrow> Some (Inl e)
                | Inr x3 \<Rightarrow>
                    (case halve_while x3 of
                       None \<Rightarrow> None
                     | Some x4 \<Rightarrow> Some (Inr (np_sum x4))))))"

section \<open>kaggle-gluon-cifar10: reorganising the dataset\<close>

text \<open>
  \<^verbatim>\<open>
  def read_csv_labels(fname):
      """Read fname to return a name to label dictionary."""
      with open(fname, 'r') as f:
          # Skip the file header line (column name)
          lines = f.readlines()[1:]
      tokens = [l.rstrip().split(',') for l in lines]
      return dict(((name, label) for name, label in tokens))

  def copyfile(filename, target_dir):
      """Copy a file into a target directory."""
      d2l.mkdir_if_not_exist(target_dir)
      shutil.copy(filename, target_dir)

  def reorg_train_valid(data_dir, labels, valid_ratio):
      n = collections.Counter(labels.values()).most_common()[-1][1]
      n_valid_per_label = max(1, math.floor(n * valid_ratio))
      label_count = {}
      for train_file in os.listdir(os.path.join(data_dir, 'train')):
          label = labels[train_file.split('.')[0]]
          fname = os.path.join(data_dir, 'train', train_file)
          copyfile(fname, os.path.join(data_dir, 'train_valid_test',
                                       'train_valid', label))
          if label not in label_count or label_count[label] < n_valid_per_label:
              copyfile(fname, os.path.join(data_dir, 'train_valid_test',
                                           'valid', label))
              label_count[label] = label_count.get(label, 0) + 1
          else:
              copyfile(fname, os.path.join(data_dir, 'train_valid_test',
                                           'train', label))
      return n_valid_per_label

  def reorg_test(data_dir):
      for test_file in os.listdir(os.path.join(data_dir, 'test')):
          copyfile(os.path.join(data_dir, 'test', test_file),
                   os.path.join(data_dir, 'train_valid_test', 'test', 'unknown'))
  \<close>
  A path is a string, and \<open>os.path.join\<close> is the one of POSIX: a component that
  starts with \<open>/\<close> discards what was joined before it, otherwise components are
  put together with one \<open>/\<close> between them. Paths are compared as strings: the model
  does not resolve \<open>.\<close>, \<open>..\<close>, doubled separators or symbolic links.

  The file system is a map from the paths of the files to their contents, with the
  list of the copies made so far, each as (source, destination). Directories are
  not modelled, so \<open>d2l.mkdir_if_not_exist\<close> changes nothing. \<open>shutil.copy\<close> of a file
  into a directory writes the content under the base name of the source; it raises
  when the source does not exist and when source and destination are the same
  path. A function that raises returns the exception together with the file system
  as it is at that moment: what was copied before stays copied.

  What \<open>os.listdir\<close> returns for \<open>data_dir/train\<close> and \<open>data_dir/test\<close> is a parameter
  (\<open>train_files\<close>, \<open>test_files\<close>), in the order in which the loop sees the names.
  \<open>valid_ratio\<close> is a real number; \<open>open\<close> of the host is a parameter that gives the
  lines of the file or the exception it raises.
\<close>

fun os_path_join :: "string \<Rightarrow> string list \<Rightarrow> string" where
  "os_path_join path [] = path"
| "os_path_join path (b # p) =
     os_path_join
       (if b \<noteq> [] \<and> hd b = CHR ''/'' then b
        else if path = [] \<or> last path = CHR ''/'' then path @ b
        else path @ ''/'' @ b) p"

definition basename :: "string \<Rightarrow> string" where
  "basename p = rev (takeWhile (\<lambda>c. c \<noteq> CHR ''/'') (rev p))"

record 'c world =
  files :: "string \<Rightarrow> 'c option"
  copied :: "(string \<times> string) list"

definition shutil_copy :: "string \<Rightarrow> string \<Rightarrow> 'c world \<Rightarrow> (error + unit) \<times> 'c world" where
  "shutil_copy src dir w =
     (case files w src of
        None \<Rightarrow> (Inl FileNotFoundError, w)
      | Some c \<Rightarrow>
          (let dst = os_path_join dir [basename src]
           in if dst = src then (Inl SameFileError, w)
              else (Inr (), w\<lparr>files := (files w)(dst \<mapsto> c),
                              copied := copied w @ [(src, dst)]\<rparr>)))"

definition copyfile :: "string \<Rightarrow> string \<Rightarrow> 'c world \<Rightarrow> (error + unit) \<times> 'c world" where
  "copyfile filename target_dir w = shutil_copy filename target_dir w"

definition counter :: "'a list \<Rightarrow> ('a, nat) dict" where
  "counter xs = foldl (\<lambda>c x. dict_set c x (dict_get_default c x 0 + 1)) [] xs"

definition most_common :: "('a, nat) dict \<Rightarrow> ('a \<times> nat) list" where
  "most_common c = sort_key (\<lambda>(x, n). - int n) c"

fun reorg_loop ::
  "string \<Rightarrow> (string, string) dict \<Rightarrow> int \<Rightarrow> string list \<Rightarrow>
   (string, int) dict \<times> 'c world \<Rightarrow> (error + (string, int) dict) \<times> 'c world" where
  "reorg_loop data_dir labels n_valid_per_label [] (label_count, w) = (Inr label_count, w)"
| "reorg_loop data_dir labels n_valid_per_label (train_file # rest) (label_count, w) =
     (case split CHR ''.'' train_file of
        [] \<Rightarrow> (Inl IndexError, w)
      | stem # _ \<Rightarrow>
          (case dict_get labels stem of
             None \<Rightarrow> (Inl KeyError, w)
           | Some label \<Rightarrow>
               (let fname = os_path_join data_dir [''train'', train_file]
                in case copyfile fname
                          (os_path_join data_dir [''train_valid_test'', ''train_valid'', label]) w of
                     (Inl e, w1) \<Rightarrow> (Inl e, w1)
                   | (Inr _, w1) \<Rightarrow>
                       if (case dict_get label_count label of
                             None \<Rightarrow> True
                           | Some c \<Rightarrow> c < n_valid_per_label)
                       then (case copyfile fname
                                    (os_path_join data_dir [''train_valid_test'', ''valid'', label])
                                    w1 of
                               (Inl e, w2) \<Rightarrow> (Inl e, w2)
                             | (Inr _, w2) \<Rightarrow>
                                 reorg_loop data_dir labels n_valid_per_label rest
                                   (dict_set label_count label
                                      (dict_get_default label_count label 0 + 1), w2))
                       else (case copyfile fname
                                    (os_path_join data_dir [''train_valid_test'', ''train'', label])
                                    w1 of
                               (Inl e, w2) \<Rightarrow> (Inl e, w2)
                             | (Inr _, w2) \<Rightarrow>
                                 reorg_loop data_dir labels n_valid_per_label rest
                                   (label_count, w2)))))"

definition reorg_train_valid ::
  "string \<Rightarrow> (string, string) dict \<Rightarrow> real \<Rightarrow> string list \<Rightarrow> 'c world \<Rightarrow>
   (error + int) \<times> 'c world" where
  "reorg_train_valid data_dir labels valid_ratio train_files w =
     (case most_common (counter (dict_values labels)) of
        [] \<Rightarrow> (Inl IndexError, w)
      | p # ps \<Rightarrow>
          (let n = snd (last (p # ps));
               n_valid_per_label = max 1 \<lfloor>real n * valid_ratio\<rfloor>
           in case reorg_loop data_dir labels n_valid_per_label train_files ([], w) of
                (Inl e, w') \<Rightarrow> (Inl e, w')
              | (Inr _, w') \<Rightarrow> (Inr n_valid_per_label, w')))"

fun reorg_test :: "string \<Rightarrow> string list \<Rightarrow> 'c world \<Rightarrow> (error + unit) \<times> 'c world" where
  "reorg_test data_dir [] w = (Inr (), w)"
| "reorg_test data_dir (test_file # rest) w =
     (case copyfile (os_path_join data_dir [''test'', test_file])
             (os_path_join data_dir [''train_valid_test'', ''test'', ''unknown'']) w of
        (Inl e, w1) \<Rightarrow> (Inl e, w1)
      | (Inr _, w1) \<Rightarrow> reorg_test data_dir rest w1)"

fun dict_of_tokens :: "string list list \<Rightarrow> (string, string) dict \<Rightarrow> error + (string, string) dict" where
  "dict_of_tokens [] d = Inr d"
| "dict_of_tokens (t # ts) d =
     (case t of
        [key, label] \<Rightarrow> dict_of_tokens ts (dict_set d key label)
      | _ \<Rightarrow> Inl ValueError)"

definition read_csv_labels ::
  "(string \<Rightarrow> error + string list) \<Rightarrow> string \<Rightarrow> error + (string, string) dict" where
  "read_csv_labels host_open fname =
     (case host_open fname of
        Inl e \<Rightarrow> Inl e
      | Inr f \<Rightarrow>
          (let lines = drop 1 f;
               tokens = map (\<lambda>l. split CHR '','' (rstrip l)) lines
           in dict_of_tokens tokens []))"

text \<open>
  The notions the properties of the reorganisation are stated with. The file a
  training or test file is read from, the directory of a class under
  \<open>train_valid_test\<close> and a file in it are the paths the code computes. A file name
  is what \<open>os.listdir\<close> returns: not empty and without \<open>/\<close>. The label of a file is
  the entry of the label map for its name up to the first \<open>.\<close>.
\<close>

definition train_path :: "string \<Rightarrow> string \<Rightarrow> string" where
  "train_path data_dir f = os_path_join data_dir [''train'', f]"

definition test_path :: "string \<Rightarrow> string \<Rightarrow> string" where
  "test_path data_dir f = os_path_join data_dir [''test'', f]"

definition class_dir :: "string \<Rightarrow> string \<Rightarrow> string \<Rightarrow> string" where
  "class_dir data_dir folder label = os_path_join data_dir [''train_valid_test'', folder, label]"

definition in_dir :: "string \<Rightarrow> string \<Rightarrow> string" where
  "in_dir dir f = os_path_join dir [f]"

definition dir_prefix :: "string \<Rightarrow> string" where
  "dir_prefix d = (if d = [] \<or> last d = CHR ''/'' then d else d @ ''/'')"

definition absolute :: "string \<Rightarrow> bool" where
  "absolute p = (p \<noteq> [] \<and> hd p = CHR ''/'')"

definition file_name :: "string \<Rightarrow> bool" where
  "file_name f = (f \<noteq> [] \<and> CHR ''/'' \<notin> set f)"

definition stem :: "string \<Rightarrow> string" where
  "stem f = hd (split CHR ''.'' f)"

definition label_of :: "(string, string) dict \<Rightarrow> string \<Rightarrow> string option" where
  "label_of labels f = dict_get labels (stem f)"

definition under_train_valid_test :: "string \<Rightarrow> string \<Rightarrow> bool" where
  "under_train_valid_test data_dir p =
     prefix (os_path_join data_dir [''train_valid_test''] @ ''/'') p"

definition under_dir :: "string \<Rightarrow> string \<Rightarrow> string \<Rightarrow> bool" where
  "under_dir data_dir sub p = prefix (os_path_join data_dir [sub] @ ''/'') p"






definition class_size :: "(string, string) dict \<Rightarrow> string \<Rightarrow> nat" where
  "class_size labels l = count_list (dict_values labels) l"

definition smallest_class :: "(string, string) dict \<Rightarrow> nat" where
  "smallest_class labels = Min ((\<lambda>l. class_size labels l) ` set (dict_values labels))"

definition valid_per_class :: "(string, string) dict \<Rightarrow> real \<Rightarrow> int" where
  "valid_per_class labels valid_ratio =
     max 1 \<lfloor>real (smallest_class labels) * valid_ratio\<rfloor>"

text \<open>
  Small file systems for the examples; each holds the files that the listings used
  with it name.
\<close>

definition cifar_world :: "nat world" where
  "cifar_world =
     \<lparr>files = [''d/train/1.png'' \<mapsto> 11, ''d/train/2.png'' \<mapsto> 12, ''d/train/3.png'' \<mapsto> 13,
               ''d/test/1.png'' \<mapsto> 21],
      copied = []\<rparr>"

definition single_world :: "nat world" where
  "single_world = \<lparr>files = [''d/train/1.png'' \<mapsto> 11], copied = []\<rparr>"

definition unlabelled_world :: "nat world" where
  "unlabelled_world =
     \<lparr>files = [''d/train/1.png'' \<mapsto> 11, ''d/train/9.png'' \<mapsto> 19, ''d/train/2.png'' \<mapsto> 12],
      copied = []\<rparr>"

definition absolute_world :: "nat world" where
  "absolute_world =
     \<lparr>files = [''/d/train/5.png'' \<mapsto> 1, ''/d/test/5.png'' \<mapsto> 2], copied = []\<rparr>"

section \<open>Properties of the code of the notebooks\<close>

subsection \<open>Dictionaries\<close>

lemma dict_set_fresh: "k \<notin> fst ` set d \<Longrightarrow> dict_set d k v = d @ [(k, v)]"
  by (induction d) auto

lemma dict_keys_set_fresh:
  "k \<notin> set (dict_keys d) \<Longrightarrow> dict_keys (dict_set d k v) = dict_keys d @ [k]"
  by (simp add: dict_keys_def dict_set_fresh)

lemma map_of_dict_set: "map_of (dict_set d k v) = (map_of d)(k \<mapsto> v)"
  by (induction d) (auto simp: fun_eq_iff)

lemma dict_get_dict_set: "dict_get (dict_set d k v) k' = (if k' = k then Some v else dict_get d k')"
  by (simp add: dict_get_def map_of_dict_set)

subsection \<open>MySequential\<close>

lemma foldl_add_distinct:
  "distinct (map name bs) \<Longrightarrow> set (map name bs) \<inter> fst ` set d = {} \<Longrightarrow>
   map fst d = map name (map snd d) \<Longrightarrow>
   foldl add d bs = d @ map (\<lambda>b. (name b, b)) bs"
proof (induction bs arbitrary: d)
  case Nil
  then show ?case by simp
next
  case (Cons b bs)
  have fresh: "name b \<notin> fst ` set d" using Cons.prems(2) by auto
  have step: "add d b = d @ [(name b, b)]"
    unfolding add_def using fresh by (rule dict_set_fresh)
  have "foldl add (d @ [(name b, b)]) bs = (d @ [(name b, b)]) @ map (\<lambda>b. (name b, b)) bs"
  proof (rule Cons.IH)
    show "distinct (map name bs)" using Cons.prems(1) by simp
    show "set (map name bs) \<inter> fst ` set (d @ [(name b, b)]) = {}"
      using Cons.prems(1,2) by auto
    show "map fst (d @ [(name b, b)]) = map name (map snd (d @ [(name b, b)]))"
      using Cons.prems(3) by simp
  qed
  then show ?case using step by simp
qed

text \<open>
  C4. When the blocks added to a new MySequential have distinct names, its children
  are the blocks in the order they were added, and calling the instance on \<open>x\<close>
  applies each block once, the first added first: the result is
  \<open>b\<^sub>n (... (b\<^sub>2 (b\<^sub>1 x)))\<close>, written as a left fold over the blocks.
\<close>

theorem MySequential_forward_in_order:
  "distinct (map name bs) \<Longrightarrow>
   dict_values (add_all bs) = bs \<and>
   forward (add_all bs) x = foldl (\<lambda>y b. call b y) x bs"
proof -
  assume d: "distinct (map name bs)"
  have "foldl add [] bs = [] @ map (\<lambda>b. (name b, b)) bs"
    by (rule foldl_add_distinct) (use d in auto)
  then have vals: "dict_values (add_all bs) = bs"
    by (simp add: add_all_def MySequential_new_def dict_values_def comp_def)
  have "forward (add_all bs) x = fold (\<lambda>block x. call block x) bs x"
    by (simp add: forward_def vals)
  also have "\<dots> = foldl (\<lambda>y b. call b y) x bs"
    by (simp add: foldl_conv_fold)
  finally show ?thesis using vals by simp
qed

theorem MySequential_forward_in_order_witness:
  "distinct (map name [Block ''dense0'' (\<lambda>n::nat. n + 1), Block ''dense1'' (\<lambda>n. n * 2)]) \<and>
   forward (add_all [Block ''dense0'' (\<lambda>n::nat. n + 1), Block ''dense1'' (\<lambda>n. n * 2)]) 3 = 8"
  using MySequential_forward_in_order
    [of "[Block ''dense0'' (\<lambda>n::nat. n + 1), Block ''dense1'' (\<lambda>n. n * 2)]" 3]
  by simp

subsection \<open>The submission file\<close>






subsection \<open>TokenEmbedding\<close>

lemma read_vec_lines_grows:
  "read_vec_lines float f (toks, vecs) = Inr (toks', vecs') \<Longrightarrow>
   \<exists>ta va. toks' = toks @ ta \<and> vecs' = vecs @ va \<and> length ta = length va"
proof (induction f arbitrary: toks vecs)
  case Nil
  then show ?case by simp
next
  case (Cons line f)
  show ?case
  proof (cases "split CHR '' '' (rstrip line)")
    case Nil
    with Cons.prems show ?thesis by simp
  next
    case (Cons token rest)
    show ?thesis
    proof (cases "floats float rest")
      case (Inl e)
      with Cons Cons.prems show ?thesis by simp
    next
      case (Inr elems)
      show ?thesis
      proof (cases "length elems > 1")
        case True
        with Cons Inr Cons.prems
        have "read_vec_lines float f (toks @ [token], vecs @ [elems]) = Inr (toks', vecs')"
          by simp
        from Cons.IH [OF this] show ?thesis by auto
      next
        case False
        with Cons Inr Cons.prems
        have "read_vec_lines float f (toks, vecs) = Inr (toks', vecs')"
          by simp
        from Cons.IH [OF this] show ?thesis .
      qed
    qed
  qed
qed

lemma load_embedding_shape:
  assumes "load_embedding float f = Inr (toks, a)"
  shows "length toks = length a \<and> toks \<noteq> [] \<and> toks ! 0 = ''<unk>'' \<and>
         (\<exists>d. a ! 0 = replicate d 0 \<and> (\<forall>r \<in> set a. length r = d))"
proof -
  from assms obtain toks' vecs where
    r: "read_vec_lines float f ([''<unk>''], []) = Inr (toks', vecs)"
    by (auto simp: load_embedding_def split: sum.splits)
  from assms r obtain v vs where vecs: "vecs = v # vs"
    by (cases vecs) (auto simp: load_embedding_def)
  from assms r vecs have
    arr: "np_array (replicate (length v) 0 # vecs) = Inr a" and toks: "toks = toks'"
    by (auto simp: load_embedding_def split: sum.splits)
  from arr have a: "a = replicate (length v) 0 # vecs"
    and rect: "\<forall>r \<in> set (replicate (length v) 0 # vecs). length r = length v"
    by (auto simp: np_array_def split: if_splits)
  from read_vec_lines_grows [OF r] obtain ta va where
    "toks' = [''<unk>''] @ ta" "vecs = [] @ va" "length ta = length va"
    by blast
  then have "length toks = length a" "toks \<noteq> []" "toks ! 0 = ''<unk>''"
    using a toks by auto
  moreover have "a ! 0 = replicate (length v) 0 \<and> (\<forall>r \<in> set a. length r = length v)"
    using a rect by simp
  ultimately show ?thesis by blast
qed

lemma enumerate_snoc: "enumerate n (xs @ [x]) = enumerate n xs @ [(n + length xs, x)]"
  by (induction xs arbitrary: n) auto

lemma token_to_idx_last:
  "let d = foldl (\<lambda>d (idx, token). dict_set d token idx) [] (enumerate 0 toks) in
   \<forall>t. (t \<in> set toks \<longrightarrow>
          (\<exists>i < length toks. dict_get d t = Some i \<and> toks ! i = t \<and>
             (\<forall>j < length toks. toks ! j = t \<longrightarrow> j \<le> i))) \<and>
        (t \<notin> set toks \<longrightarrow> dict_get d t = None)"
proof (induction toks rule: rev_induct)
  case Nil
  then show ?case by (simp add: dict_get_def)
next
  case (snoc y ys)
  let ?d = "foldl (\<lambda>d (idx, token). dict_set d token idx) [] (enumerate 0 ys)"
  have d': "foldl (\<lambda>d (idx, token). dict_set d token idx) [] (enumerate 0 (ys @ [y])) =
        dict_set ?d y (length ys)"
    by (simp add: enumerate_snoc)
  show ?case
    unfolding Let_def d'
  proof (intro allI conjI impI)
    fix t assume "t \<in> set (ys @ [y])"
    show "\<exists>i<length (ys @ [y]). dict_get (dict_set ?d y (length ys)) t = Some i \<and>
            (ys @ [y]) ! i = t \<and> (\<forall>j<length (ys @ [y]). (ys @ [y]) ! j = t \<longrightarrow> j \<le> i)"
    proof (cases "t = y")
      case True
      then show ?thesis
        by (intro exI[of _ "length ys"]) (auto simp: dict_get_dict_set)
    next
      case False
      with \<open>t \<in> set (ys @ [y])\<close> have "t \<in> set ys" by simp
      with snoc obtain i where i: "i < length ys" "dict_get ?d t = Some i" "ys ! i = t"
        "\<forall>j < length ys. ys ! j = t \<longrightarrow> j \<le> i"
        unfolding Let_def by blast
      have "\<forall>j<length (ys @ [y]). (ys @ [y]) ! j = t \<longrightarrow> j \<le> i"
      proof (intro allI impI)
        fix j assume j: "j < length (ys @ [y])" "(ys @ [y]) ! j = t"
        with False have "j < length ys" by (cases "j = length ys") auto
        with j i(4) show "j \<le> i" by (simp add: nth_append)
      qed
      with i False show ?thesis
        by (intro exI[of _ i]) (auto simp: dict_get_dict_set nth_append)
    qed
  next
    fix t assume "t \<notin> set (ys @ [y])"
    with snoc show "dict_get (dict_set ?d y (length ys)) t = None"
      unfolding Let_def by (auto simp: dict_get_dict_set)
  qed
qed

lemma take_rows_ok:
  "\<forall>i \<in> set is. i < length a \<Longrightarrow> take_rows a is = Inr (map (\<lambda>i. a ! i) is)"
  by (induction "is") auto

lemma invoke_same: "snd (invoke self c) = self"
  by (cases c) simp_all

lemma after_calls_same: "after_calls self calls = self"
  unfolding after_calls_def by (induction calls) (simp_all add: invoke_same)

lemma TokenEmbedding_init_fields:
  assumes "TokenEmbedding_init float f = Inr te"
  shows "load_embedding float f = Inr (idx_to_token te, idx_to_vec te) \<and>
         unknown_idx te = 0 \<and>
         token_to_idx te =
           foldl (\<lambda>d (idx, token). dict_set d token idx) [] (enumerate 0 (idx_to_token te))"
  using assms by (auto simp: TokenEmbedding_init_def split: sum.splits)

lemma init_invariant:
  assumes "TokenEmbedding_init float f = Inr te0" and "te = after_calls te0 calls"
  shows "length (idx_to_token te) = length (idx_to_vec te) \<and>
         idx_to_token te \<noteq> [] \<and> idx_to_token te ! 0 = ''<unk>'' \<and> unknown_idx te = 0 \<and>
         (\<forall>t \<in> set (idx_to_token te).
            \<exists>i < length (idx_to_token te).
              dict_get (token_to_idx te) t = Some i \<and> idx_to_token te ! i = t \<and>
              (\<forall>j < length (idx_to_token te). idx_to_token te ! j = t \<longrightarrow> j \<le> i))"
proof -
  have te: "te = te0" using assms(2) by (simp add: after_calls_same)
  note fields = TokenEmbedding_init_fields [OF assms(1)]
  from fields have shape:
    "length (idx_to_token te) = length (idx_to_vec te) \<and> idx_to_token te \<noteq> [] \<and>
     idx_to_token te ! 0 = ''<unk>''"
    using load_embedding_shape [of float f "idx_to_token te0" "idx_to_vec te0"] te by blast
  have "\<forall>t \<in> set (idx_to_token te).
            \<exists>i < length (idx_to_token te).
              dict_get (token_to_idx te) t = Some i \<and> idx_to_token te ! i = t \<and>
              (\<forall>j < length (idx_to_token te). idx_to_token te ! j = t \<longrightarrow> j \<le> i)"
    using token_to_idx_last [of "idx_to_token te0"] fields te
    unfolding Let_def by simp
  with shape fields te show ?thesis by simp
qed

lemma getitem_rows:
  assumes "TokenEmbedding_init float f = Inr te"
  shows "\<exists>d. idx_to_vec te ! 0 = replicate d 0 \<and>
           (\<forall>v \<in> set (idx_to_vec te). length v = d) \<and>
           (\<forall>t i. dict_get (token_to_idx te) t = Some i \<longrightarrow> i < length (idx_to_vec te)) \<and>
           getitem te tokens =
             Inr (map (\<lambda>token. case dict_get (token_to_idx te) token of
                                  Some i \<Rightarrow> idx_to_vec te ! i
                                | None \<Rightarrow> replicate d 0) tokens)"
proof -
  note fields = TokenEmbedding_init_fields [OF assms]
  from fields load_embedding_shape [of float f "idx_to_token te" "idx_to_vec te"]
  obtain d where len: "length (idx_to_token te) = length (idx_to_vec te)"
    and ne: "idx_to_token te \<noteq> []"
    and zero: "idx_to_vec te ! 0 = replicate d 0"
    and rect: "\<forall>v \<in> set (idx_to_vec te). length v = d"
    by blast
  have bound: "i < length (idx_to_vec te)" if "dict_get (token_to_idx te) t = Some i" for t i
  proof (cases "t \<in> set (idx_to_token te)")
    case True
    with token_to_idx_last [of "idx_to_token te"] fields that len show ?thesis
      unfolding Let_def by fastforce
  next
    case False
    with token_to_idx_last [of "idx_to_token te"] fields that show ?thesis
      unfolding Let_def by fastforce
  qed
  let ?ix = "\<lambda>token. dict_get_default (token_to_idx te) token (unknown_idx te)"
  have ix: "?ix token < length (idx_to_vec te)" for token
    using bound [of token] fields len ne
    by (auto simp: dict_get_default_def split: option.splits)
  have "getitem te tokens = Inr (map (\<lambda>i. idx_to_vec te ! i) (map ?ix tokens))"
    unfolding getitem_def Let_def using ix by (intro take_rows_ok) auto
  also have "map (\<lambda>i. idx_to_vec te ! i) (map ?ix tokens) =
      map (\<lambda>token. case dict_get (token_to_idx te) token of
                      Some i \<Rightarrow> idx_to_vec te ! i | None \<Rightarrow> replicate d 0) tokens"
    using zero fields by (auto simp: dict_get_default_def split: option.splits)
  finally show ?thesis using zero rect bound by blast
qed

text \<open>
  C9. A TokenEmbedding that was constructed, after any sequence of \<open>__getitem__\<close> and
  \<open>__len__\<close> calls: \<open>idx_to_token\<close> has as many entries as \<open>idx_to_vec\<close> has rows, its
  entry 0 is \<open><unk>\<close>, \<open>unknown_idx\<close> is 0, and every token \<open>t\<close> of \<open>idx_to_token\<close> is
  a key of \<open>token_to_idx\<close> whose index \<open>i\<close> holds \<open>t\<close> again; \<open>i\<close> is the last position
  of \<open>t\<close> in \<open>idx_to_token\<close>.
\<close>

theorem TokenEmbedding_invariant:
  assumes "TokenEmbedding_init float f = Inr te0" and "te = after_calls te0 calls"
  shows "length (idx_to_token te) = length (idx_to_vec te) \<and>
         idx_to_token te \<noteq> [] \<and> idx_to_token te ! 0 = ''<unk>'' \<and> unknown_idx te = 0 \<and>
         (\<forall>t \<in> set (idx_to_token te).
            \<exists>i < length (idx_to_token te).
              dict_get (token_to_idx te) t = Some i \<and> idx_to_token te ! i = t \<and>
              (\<forall>j < length (idx_to_token te). idx_to_token te ! j = t \<longrightarrow> j \<le> i))"
  using assms by (rule init_invariant)

text \<open>
  C1. For a constructed TokenEmbedding and every list of tokens, \<open>__getitem__\<close>
  returns one vector per token, in the order of the tokens: the row of \<open>idx_to_vec\<close>
  at the token's index when the token is a key of \<open>token_to_idx\<close> (the index is a
  row of the table), and otherwise the row at index 0, which is the vector of \<open>d\<close>
  zeros, \<open>d\<close> being the length of every row of the table.
\<close>

theorem TokenEmbedding_getitem:
  assumes "TokenEmbedding_init float f = Inr te"
  shows "\<exists>d. idx_to_vec te ! 0 = replicate d 0 \<and>
           (\<forall>v \<in> set (idx_to_vec te). length v = d) \<and>
           (\<forall>t i. dict_get (token_to_idx te) t = Some i \<longrightarrow> i < length (idx_to_vec te)) \<and>
           getitem te tokens =
             Inr (map (\<lambda>token. case dict_get (token_to_idx te) token of
                                  Some i \<Rightarrow> idx_to_vec te ! i
                                | None \<Rightarrow> replicate d 0) tokens)"
  using assms by (rule getitem_rows)

lemma init_example:
  "TokenEmbedding_init float_small [''2 2'', ''king 1 0'', ''queen 0 1'', ''king 1 1''] =
   Inr \<lparr>idx_to_token = [''<unk>'', ''king'', ''queen'', ''king''],
        idx_to_vec = [[0, 0], [1, 0], [0, 1], [1, 1]], unknown_idx = 0,
        token_to_idx = [(''<unk>'', 0), (''king'', 3), (''queen'', 2)]\<rparr>"
  by code_simp


theorem TokenEmbedding_invariant_witness:
  "TokenEmbedding_init float_small [''2 2'', ''king 1 0'', ''queen 0 1'', ''king 1 1''] =
     Inr \<lparr>idx_to_token = [''<unk>'', ''king'', ''queen'', ''king''],
          idx_to_vec = [[0, 0], [1, 0], [0, 1], [1, 1]], unknown_idx = 0,
          token_to_idx = [(''<unk>'', 0), (''king'', 3), (''queen'', 2)]\<rparr> \<and>
   (\<exists>te. te = after_calls
            \<lparr>idx_to_token = [''<unk>'', ''king'', ''queen'', ''king''],
             idx_to_vec = [[0, 0], [1, 0], [0, 1], [1, 1]], unknown_idx = 0,
             token_to_idx = [(''<unk>'', 0), (''king'', 3), (''queen'', 2)]\<rparr>
            [GetItem [''king'', ''zzz''], Len] \<and>
         length (idx_to_token te) = length (idx_to_vec te) \<and>
         idx_to_token te ! 0 = ''<unk>'' \<and> unknown_idx te = 0 \<and>
         (\<exists>i < length (idx_to_token te).
             dict_get (token_to_idx te) ''king'' = Some i \<and> idx_to_token te ! i = ''king''))"
proof -
  let ?T = "\<lparr>idx_to_token = [''<unk>'', ''king'', ''queen'', ''king''],
             idx_to_vec = [[0, 0], [1, 0], [0, 1], [1, 1]], unknown_idx = 0,
             token_to_idx = [(''<unk>'', 0), (''king'', 3), (''queen'', 2)]\<rparr>"
  let ?te = "after_calls ?T [GetItem [''king'', ''zzz''], Len]"
  have "''king'' \<in> set (idx_to_token ?te)" by (simp add: after_calls_same)
  with TokenEmbedding_invariant [OF init_example, of ?te "[GetItem [''king'', ''zzz''], Len]"]
  show ?thesis using init_example by blast
qed

theorem TokenEmbedding_getitem_witness:
  "TokenEmbedding_init float_small [''2 2'', ''king 1 0'', ''queen 0 1'', ''king 1 1''] =
     Inr \<lparr>idx_to_token = [''<unk>'', ''king'', ''queen'', ''king''],
          idx_to_vec = [[0, 0], [1, 0], [0, 1], [1, 1]], unknown_idx = 0,
          token_to_idx = [(''<unk>'', 0), (''king'', 3), (''queen'', 2)]\<rparr> \<and>
   getitem \<lparr>idx_to_token = [''<unk>'', ''king'', ''queen'', ''king''],
          idx_to_vec = [[0, 0], [1, 0], [0, 1], [1, 1]], unknown_idx = 0,
          token_to_idx = [(''<unk>'', 0), (''king'', 3), (''queen'', 2)]\<rparr>
      [''queen'', ''zzz'', ''king''] = Inr [[0, 1], [0, 0], [1, 1]]"
proof -
  from TokenEmbedding_getitem [OF init_example, of "[''queen'', ''zzz'', ''king'']"]
  show ?thesis using init_example by (auto simp: dict_get_def)
qed

subsection \<open>knn and get_analogy\<close>







lemma topk_zero_example: "topk [1, 2] 0 = Inr [1, 0]"
  by (simp add: topk_def upt_rec)
















subsection \<open>FixedHiddenMLP\<close>







lemma forward_example:
  "FixedHiddenMLP_forward (\<lambda>z. Inr (relu z)) [[1, 0], [0, 1]] [[3, 0]] = Some (Inr (5 / 8))"
  by (simp add: FixedHiddenMLP_forward_def np_dot2_def relu_def np_sum_def np_abs_def
      halve_while.simps upt_rec)



subsection \<open>Reorganising the dataset\<close>

lemma split_not_Nil: "split sep s \<noteq> []"
  by (induction s) (auto split: list.splits)

lemma split_stem: "split CHR ''.'' f = stem f # tl (split CHR ''.'' f)"
  using split_not_Nil [of "CHR ''.''" f] by (simp add: stem_def)

lemma join_one:
  "os_path_join a [b] = (if absolute b then b else dir_prefix a @ b)"
  by (simp add: absolute_def dir_prefix_def)

lemma join_append: "os_path_join a (p @ q) = os_path_join (os_path_join a p) q"
  by (induction p arbitrary: a) simp_all

lemma join_Cons: "os_path_join a (b # p) = os_path_join (os_path_join a [b]) p"
  by simp

lemma tvt_root: "os_path_join d [''train_valid_test''] = dir_prefix d @ ''train_valid_test''"
  by (simp add: dir_prefix_def)

lemma join_train: "os_path_join d [''train''] = dir_prefix d @ ''train''"
  by (simp add: dir_prefix_def)

lemma join_test: "os_path_join d [''test''] = dir_prefix d @ ''test''"
  by (simp add: dir_prefix_def)

declare os_path_join.simps [simp del]

lemma file_name_not_absolute: "file_name f \<Longrightarrow> \<not> absolute f"
  by (cases f) (auto simp: file_name_def absolute_def)

lemma basename_append_slash:
  assumes "CHR ''/'' \<notin> set f"
  shows "basename (d @ ''/'' @ f) = f"
proof -
  have "takeWhile (\<lambda>c. c \<noteq> CHR ''/'') (rev f @ CHR ''/'' # rev d) =
        rev f @ takeWhile (\<lambda>c. c \<noteq> CHR ''/'') (CHR ''/'' # rev d)"
    by (rule takeWhile_append2) (use assms in auto)
  then show ?thesis by (simp add: basename_def)
qed


lemma basename_no_slash: "CHR ''/'' \<notin> set (basename p)"
proof -
  have "\<forall>c \<in> set (takeWhile (\<lambda>c. c \<noteq> CHR ''/'') (rev p)). c \<noteq> CHR ''/''"
    by (auto dest: set_takeWhileD)
  then show ?thesis by (auto simp: basename_def)
qed

lemma dir_prefix_cases: "dir_prefix d = d \<and> (d = [] \<or> last d = CHR ''/'') \<or> dir_prefix d = d @ ''/''"
  by (simp add: dir_prefix_def)



lemma test_path_eq:
  assumes "file_name f"
  shows "test_path d f = dir_prefix d @ ''test/'' @ f"
proof -
  have "os_path_join d [''test''] = dir_prefix d @ ''test''" by (rule join_test)
  moreover have "dir_prefix (dir_prefix d @ ''test'') = dir_prefix d @ ''test/''"
    by (simp add: dir_prefix_def)
  ultimately show ?thesis
    using file_name_not_absolute [OF assms] join_one [of "dir_prefix d @ ''test''" f]
      join_Cons [of d "''test''" "[f]"]
    by (simp add: test_path_def)
qed


lemma basename_test_path: "file_name f \<Longrightarrow> basename (test_path d f) = f"
  using basename_append_slash [of f "dir_prefix d @ ''test''"]
  by (simp add: test_path_eq file_name_def)

lemma class_dir_eq:
  assumes "folder \<in> {''train_valid'', ''valid'', ''train'', ''test''}" and "\<not> absolute label"
  shows "class_dir d folder label =
           dir_prefix d @ ''train_valid_test/'' @ folder @ ''/'' @ label"
proof -
  have 1: "os_path_join d [''train_valid_test''] = dir_prefix d @ ''train_valid_test''"
    by (rule tvt_root)
  have 2: "os_path_join (dir_prefix d @ ''train_valid_test'') [folder] =
        dir_prefix d @ ''train_valid_test/'' @ folder"
    using assms(1) by (auto simp: join_one absolute_def dir_prefix_def)
  have 3: "dir_prefix (dir_prefix d @ ''train_valid_test/'' @ folder) =
        dir_prefix d @ ''train_valid_test/'' @ folder @ ''/''"
    using assms(1) by (auto simp: dir_prefix_def)
  have "class_dir d folder label =
      os_path_join (os_path_join (os_path_join d [''train_valid_test'']) [folder]) [label]"
    unfolding class_dir_def
    by (subst join_Cons, subst (2) join_Cons) (rule refl)
  also have "\<dots> = dir_prefix d @ ''train_valid_test/'' @ folder @ ''/'' @ label"
    unfolding 1 2 using assms(2) 3 by (simp only: join_one if_False append_assoc)
  finally show ?thesis .
qed




lemma test_path_not_under:
  "file_name f \<Longrightarrow> \<not> under_train_valid_test d (test_path d f)"
  by (simp add: under_train_valid_test_def tvt_root test_path_eq)



lemma label_in_values: "label_of labels f = Some l \<Longrightarrow> l \<in> set (dict_values labels)"
  by (auto simp: label_of_def dict_get_def dict_values_def dest!: map_of_SomeD intro: rev_image_eqI)








lemma dict_keys_dict_set:
  "set (map fst (dict_set d k v)) = insert k (set (map fst d))"
  by (induction d k v rule: dict_set.induct) auto

lemma dict_get_default_dict_set:
  "dict_get_default (dict_set d k v) k' a = (if k' = k then v else dict_get_default d k' a)"
  by (simp add: dict_get_default_def dict_get_dict_set)

lemma distinct_dict_set:
  "distinct (map fst d) \<Longrightarrow> distinct (map fst (dict_set d k v))"
proof (induction d)
  case Nil
  then show ?case by simp
next
  case (Cons p d)
  obtain k' v' where p: "p = (k', v')" by (cases p)
  show ?case
  proof (cases "k' = k")
    case True
    with Cons.prems p show ?thesis by simp
  next
    case False
    have "set (map fst (dict_set d k v)) = insert k (set (map fst d))"
      by (rule dict_keys_dict_set)
    with False Cons p show ?thesis by auto
  qed
qed

lemma counter_fold:
  "distinct (map fst c) \<Longrightarrow>
   distinct (map fst (foldl (\<lambda>c x. dict_set c x (dict_get_default c x 0 + 1)) c xs)) \<and>
   (\<forall>v. dict_get (foldl (\<lambda>c x. dict_set c x (dict_get_default c x 0 + 1)) c xs) v =
      (if count_list xs v = 0 then dict_get c v
       else Some (dict_get_default c v 0 + count_list xs v)))"
proof (induction xs arbitrary: c)
  case Nil
  then show ?case by simp
next
  case (Cons x xs)
  let ?c = "dict_set c x (dict_get_default c x 0 + 1)"
  have d: "distinct (map fst ?c)" using Cons.prems by (rule distinct_dict_set)
  from Cons.IH [OF d] show ?case
    by (auto simp: dict_get_dict_set dict_get_default_dict_set)
qed

lemma counter_get:
  "dict_get (counter xs) v = (if v \<in> set xs then Some (count_list xs v) else None)"
  using counter_fold [of "[]" xs]
  by (auto simp: counter_def dict_get_def dict_get_default_def count_list_0_iff)

lemma counter_set: "set (counter xs) = (\<lambda>v. (v, count_list xs v)) ` set xs"
proof -
  have d: "distinct (map fst (counter xs))"
    using counter_fold [of "[]" xs] by (simp add: counter_def)
  have "(k, n) \<in> set (counter xs) \<longleftrightarrow> (k \<in> set xs \<and> n = count_list xs k)" for k n
  proof -
    have "(k, n) \<in> set (counter xs) \<longleftrightarrow> map_of (counter xs) k = Some n"
      using map_of_eq_Some_iff [OF d, of k n] by simp
    also have "\<dots> \<longleftrightarrow> (if k \<in> set xs then Some (count_list xs k) else None) = Some n"
      using counter_get [of xs k] by (simp add: dict_get_def)
    also have "\<dots> \<longleftrightarrow> (k \<in> set xs \<and> n = count_list xs k)" by auto
    finally show ?thesis .
  qed
  then show ?thesis by auto
qed

lemma sorted_last_max:
  "xs \<noteq> [] \<Longrightarrow> sorted (map f xs) \<Longrightarrow> \<forall>x \<in> set xs. f x \<le> f (last xs)"
proof (induction xs rule: rev_induct)
  case Nil
  then show ?case by simp
next
  case (snoc y ys)
  then show ?case by (auto simp: sorted_append)
qed

lemma most_common_last:
  assumes "xs \<noteq> []"
  shows "most_common (counter xs) \<noteq> [] \<and>
         snd (last (most_common (counter xs))) = Min (count_list xs ` set xs)"
proof -
  let ?mc = "most_common (counter xs)"
  let ?key = "\<lambda>(x :: 'a, n :: nat). - int n"
  have s: "set ?mc = (\<lambda>v. (v, count_list xs v)) ` set xs"
    by (simp add: most_common_def counter_set)
  with assms have ne: "?mc \<noteq> []" by auto
  have "sorted (map ?key ?mc)" unfolding most_common_def by (rule sorted_sort_key)
  with ne have mx: "\<forall>p \<in> set ?mc. ?key p \<le> ?key (last ?mc)" by (rule sorted_last_max)
  from ne have "last ?mc \<in> set ?mc" by simp
  with s obtain v where v: "v \<in> set xs" "last ?mc = (v, count_list xs v)" by auto
  have "Min (count_list xs ` set xs) = count_list xs v"
  proof (rule Min_eqI)
    show "finite (count_list xs ` set xs)" by simp
    show "count_list xs v \<in> count_list xs ` set xs" using v(1) by simp
    fix y assume "y \<in> count_list xs ` set xs"
    then obtain u where u: "u \<in> set xs" "y = count_list xs u" by auto
    then have "(u, y) \<in> set ?mc" using s by auto
    with mx v(2) show "count_list xs v \<le> y" by fastforce
  qed
  with ne v(2) show ?thesis by simp
qed

lemma reorg_train_valid_unfold:
  assumes "labels \<noteq> []"
  shows "reorg_train_valid D labels r fs w =
     (case reorg_loop D labels (valid_per_class labels r) fs ([], w) of
        (Inl e, w') \<Rightarrow> (Inl e, w')
      | (Inr _, w') \<Rightarrow> (Inr (valid_per_class labels r), w'))"
proof -
  from assms have ne: "dict_values labels \<noteq> []" by (simp add: dict_values_def)
  from most_common_last [OF ne] obtain p ps where
    mc: "most_common (counter (dict_values labels)) = p # ps"
    and n: "snd (last (p # ps)) = smallest_class labels"
    by (cases "most_common (counter (dict_values labels))")
       (auto simp: smallest_class_def class_size_def)
  show ?thesis
    unfolding reorg_train_valid_def mc list.case Let_def n valid_per_class_def ..
qed

lemma reorg_train_valid_empty: "reorg_train_valid D [] r fs w = (Inl IndexError, w)"
  by (simp add: reorg_train_valid_def dict_values_def counter_def most_common_def)





lemma loop_unfold:
  "reorg_loop D labels nv (f # rest) (lc, w) =
     (case label_of labels f of
        None \<Rightarrow> (Inl KeyError, w)
      | Some l \<Rightarrow>
          (case copyfile (train_path D f) (class_dir D ''train_valid'' l) w of
             (Inl e, w1) \<Rightarrow> (Inl e, w1)
           | (Inr u, w1) \<Rightarrow>
               (case copyfile (train_path D f)
                       (class_dir D
                          (if (case dict_get lc l of None \<Rightarrow> True | Some k \<Rightarrow> k < nv)
                           then ''valid'' else ''train'') l) w1 of
                  (Inl e, w2) \<Rightarrow> (Inl e, w2)
                | (Inr u, w2) \<Rightarrow>
                    reorg_loop D labels nv rest
                      (if (case dict_get lc l of None \<Rightarrow> True | Some k \<Rightarrow> k < nv)
                       then dict_set lc l (dict_get_default lc l 0 + 1) else lc, w2))))"
proof -
  have st: "split CHR ''.'' f = stem f # tl (split CHR ''.'' f)" by (rule split_stem)
  show ?thesis
    apply (subst reorg_loop.simps)
    apply (subst st)
    apply (simp only: list.case Let_def)
    apply (fold train_path_def class_dir_def label_of_def)
    apply (auto split: option.splits sum.splits prod.splits)
    done
qed

declare reorg_loop.simps(2) [simp del]

lemma basename_not_absolute: "\<not> absolute (basename p)"
  using basename_no_slash [of p] by (cases "basename p") (auto simp: absolute_def)

lemma class_dir_under:
  assumes "folder \<in> {''train_valid'', ''valid'', ''train'', ''test''}" and "\<not> absolute label"
    and "\<not> absolute b"
  shows "under_train_valid_test d (in_dir (class_dir d folder label) b)"
proof -
  let ?T = "dir_prefix d @ ''train_valid_test/'' @ folder @ ''/'' @ label"
  have "in_dir (class_dir d folder label) b = dir_prefix ?T @ b"
    using assms(3) by (simp add: in_dir_def join_one class_dir_eq [OF assms(1,2)])
  moreover have "prefix (dir_prefix d @ ''train_valid_test/'') (dir_prefix ?T @ b)"
    using dir_prefix_cases [of ?T] by (auto simp: prefix_def)
  ultimately show ?thesis
    unfolding under_train_valid_test_def tvt_root by simp
qed

lemma copyfile_frame:
  assumes "copyfile src dir w = (r, w')" and "p \<noteq> in_dir dir (basename src)"
  shows "files w' p = files w p"
  using assms
  by (auto simp: copyfile_def shutil_copy_def in_dir_def Let_def split: option.splits if_splits)

lemma copyfile_class_dir_frame:
  assumes "copyfile src (class_dir D folder l) w = (r, w')"
    and "folder \<in> {''train_valid'', ''valid'', ''train'', ''test''}" and "\<not> absolute l"
    and "\<not> under_train_valid_test D p"
  shows "files w' p = files w p"
proof (rule copyfile_frame [OF assms(1)])
  have "under_train_valid_test D (in_dir (class_dir D folder l) (basename src))"
    using assms(2,3) basename_not_absolute by (rule class_dir_under)
  with assms(4) show "p \<noteq> in_dir (class_dir D folder l) (basename src)" by auto
qed

lemma loop_frame:
  assumes nonabs: "\<forall>l \<in> set (dict_values labels). \<not> absolute l"
    and run: "reorg_loop D labels nv rest (lc, w) = (res, w')"
    and p: "\<not> under_train_valid_test D p"
  shows "files w' p = files w p"
  using run
proof (induction rest arbitrary: lc w)
  case Nil
  then show ?case by simp
next
  case (Cons f rest)
  show ?case
  proof (cases "label_of labels f")
    case None
    with Cons.prems show ?thesis by (simp add: loop_unfold)
  next
    case (Some l)
    with nonabs have na: "\<not> absolute l" using label_in_values by blast
    obtain r1 w1 where c1: "copyfile (train_path D f) (class_dir D ''train_valid'' l) w = (r1, w1)"
      by (cases "copyfile (train_path D f) (class_dir D ''train_valid'' l) w")
    have f1: "files w1 p = files w p"
      by (rule copyfile_class_dir_frame [OF c1 _ na p]) simp
    show ?thesis
    proof (cases r1)
      case (Inl e)
      with Cons.prems Some c1 f1 show ?thesis by (simp add: loop_unfold)
    next
      case (Inr u)
      let ?gv = "case dict_get lc l of None \<Rightarrow> True | Some k \<Rightarrow> k < nv"
      let ?folder = "if ?gv then ''valid'' else ''train''"
      obtain r2 w2 where c2: "copyfile (train_path D f) (class_dir D ?folder l) w1 = (r2, w2)"
        by (cases "copyfile (train_path D f) (class_dir D ?folder l) w1")
      have f2: "files w2 p = files w1 p"
        by (rule copyfile_class_dir_frame [OF c2 _ na p]) simp
      show ?thesis
      proof (cases r2)
        case (Inl e)
        with Cons.prems Some c1 Inr c2 f1 f2 show ?thesis by (simp add: loop_unfold)
      next
        case r2: (Inr u2)
        from Cons.prems Some c1 Inr c2 r2 have
          "reorg_loop D labels nv rest
             (if ?gv then dict_set lc l (dict_get_default lc l 0 + 1) else lc, w2) = (res, w')"
          by (simp add: loop_unfold)
        from Cons.IH [OF this] f1 f2 show ?thesis by simp
      qed
    qed
  qed
qed

lemma reorg_train_valid_frame:
  assumes "\<forall>l \<in> set (dict_values labels). \<not> absolute l"
    and "reorg_train_valid D labels r fs w = (res, w')"
    and "\<not> under_train_valid_test D p"
  shows "files w' p = files w p"
proof (cases "labels = []")
  case True
  with assms(2) show ?thesis by (simp add: reorg_train_valid_empty)
next
  case False
  obtain r1 w1 where l: "reorg_loop D labels (valid_per_class labels r) fs ([], w) = (r1, w1)"
    by (cases "reorg_loop D labels (valid_per_class labels r) fs ([], w)")
  with assms(2) False have "w' = w1"
    by (auto simp: reorg_train_valid_unfold split: sum.splits)
  with loop_frame [OF assms(1) l assms(3)] show ?thesis by simp
qed

lemma reorg_test_frame:
  assumes "reorg_test D fs w = (res, w')" and "\<not> under_train_valid_test D p"
  shows "files w' p = files w p"
  using assms(1)
proof (induction fs arbitrary: w)
  case Nil
  then show ?case by simp
next
  case (Cons f fs)
  obtain r1 w1 where
    c1: "copyfile (os_path_join D [''test'', f]) (class_dir D ''test'' ''unknown'') w = (r1, w1)"
    by (cases "copyfile (os_path_join D [''test'', f]) (class_dir D ''test'' ''unknown'') w")
  have f1: "files w1 p = files w p"
    by (rule copyfile_class_dir_frame [OF c1 _ _ assms(2)]) (simp_all add: absolute_def)
  show ?case
  proof (cases r1)
    case (Inl e)
    with Cons.prems c1 f1 show ?thesis by (simp add: class_dir_def)
  next
    case (Inr u)
    with Cons.prems c1 have "reorg_test D fs w1 = (res, w')" by (simp add: class_dir_def)
    from Cons.IH [OF this] f1 show ?thesis by simp
  qed
qed

lemma under_dir_not_tvt:
  assumes "under_dir D ''train'' p \<or> under_dir D ''test'' p"
  shows "\<not> under_train_valid_test D p"
  using assms
  by (auto simp: under_dir_def under_train_valid_test_def tvt_root join_train join_test
      prefix_def)

lemma loop_append:
  "reorg_loop D labels nv (pre @ rest) (lc, w) =
     (case reorg_loop D labels nv pre (lc, w) of
        (Inl e, w') \<Rightarrow> (Inl e, w')
      | (Inr lc', w') \<Rightarrow> reorg_loop D labels nv rest (lc', w'))"
proof (induction pre arbitrary: lc w)
  case Nil
  then show ?case by simp
next
  case (Cons f pre)
  show ?case
    unfolding append_Cons loop_unfold
    by (auto simp: Cons.IH split: option.splits sum.splits prod.splits)
qed






lemma dict_get_None_iff: "dict_get d k = None \<longleftrightarrow> k \<notin> set (dict_keys d)"
  by (simp add: dict_get_def dict_keys_def map_of_eq_None_iff)

lemma reorg_train_valid_stops:
  assumes "reorg_train_valid D labels r pre w = (Inr n, w1)"
    and "stem f \<notin> set (dict_keys labels)"
  shows "reorg_train_valid D labels r (pre @ f # post) w = (Inl KeyError, w1)"
proof -
  let ?nv = "valid_per_class labels r"
  from assms(1) have ne: "labels \<noteq> []"
    by (auto simp: reorg_train_valid_empty)
  obtain r1 w' where l: "reorg_loop D labels ?nv pre ([], w) = (r1, w')"
    by (cases "reorg_loop D labels ?nv pre ([], w)")
  with assms(1) ne obtain lc where r1: "r1 = Inr lc" and w': "w' = w1"
    by (auto simp: reorg_train_valid_unfold split: sum.splits)
  from assms(2) have "label_of labels f = None"
    by (simp add: label_of_def dict_get_None_iff)
  then have "reorg_loop D labels ?nv (f # post) (lc, w1) = (Inl KeyError, w1)"
    by (simp add: loop_unfold)
  with l r1 w' have "reorg_loop D labels ?nv (pre @ f # post) ([], w) = (Inl KeyError, w1)"
    by (simp add: loop_append)
  then show ?thesis by (simp add: reorg_train_valid_unfold [OF ne])
qed

text \<open>
  C5 (as amended). When \<open>reorg_train_valid\<close> gets through the files listed before a
  file whose name up to the first \<open>.\<close> is not a key of the label map (it then has a
  non-empty label map), it raises \<open>KeyError\<close> at that file: the exception is the
  result, the file system is the one left by the copies made before, and no file
  after it is looked at. \<open>read_csv_labels\<close> returns the exception that opening
  \<open>fname\<close> raises.
\<close>

theorem errors_propagate:
  "(reorg_train_valid D labels r pre w = (Inr n, w1) \<and> stem f \<notin> set (dict_keys labels) \<longrightarrow>
      reorg_train_valid D labels r (pre @ f # post) w = (Inl KeyError, w1)) \<and>
   (host_open fname = Inl e \<longrightarrow> read_csv_labels host_open fname = Inl e)"
  using reorg_train_valid_stops [of D labels r pre w n w1 f post]
  by (simp add: read_csv_labels_def)

lemma unlabelled_first_file:
  "fst (reorg_train_valid ''d'' [(''1'', ''cat''), (''2'', ''dog'')] (1 / 10) [''1.png'']
          unlabelled_world) = Inr 1"
  by (simp add: reorg_train_valid_def dict_values_def counter_def most_common_def
      dict_get_default_def dict_get_def loop_unfold label_of_def stem_def
      train_path_def class_dir_def os_path_join.simps copyfile_def shutil_copy_def
      basename_def unlabelled_world_def Let_def)

theorem errors_propagate_witness:
  "fst (reorg_train_valid ''d'' [(''1'', ''cat''), (''2'', ''dog'')] (1 / 10) [''1.png'']
          unlabelled_world) = Inr 1 \<and>
   stem ''9.png'' \<notin> set (dict_keys [(''1'', ''cat''), (''2'', ''dog'')]) \<and>
   reorg_train_valid ''d'' [(''1'', ''cat''), (''2'', ''dog'')] (1 / 10)
       ([''1.png''] @ ''9.png'' # [''2.png'']) unlabelled_world =
     (Inl KeyError,
      snd (reorg_train_valid ''d'' [(''1'', ''cat''), (''2'', ''dog'')] (1 / 10) [''1.png'']
             unlabelled_world)) \<and>
   (\<lambda>f. Inl FileNotFoundError) ''d/trainLabels.csv'' = (Inl FileNotFoundError :: error + string list) \<and>
   read_csv_labels (\<lambda>f. Inl FileNotFoundError) ''d/trainLabels.csv'' = Inl FileNotFoundError"
proof -
  let ?run = "reorg_train_valid ''d'' [(''1'', ''cat''), (''2'', ''dog'')] (1 / 10) [''1.png'']
          unlabelled_world"
  have h1: "?run = (Inr 1, snd ?run)" using unlabelled_first_file by (metis prod.collapse)
  have h2: "stem ''9.png'' \<notin> set (dict_keys [(''1'', ''cat''), (''2'', ''dog'')])"
    by (simp add: stem_def dict_keys_def)
  have h3: "(\<lambda>f. Inl FileNotFoundError) ''d/trainLabels.csv'' =
      (Inl FileNotFoundError :: error + string list)"
    by simp
  from errors_propagate
    [of "''d''" "[(''1'', ''cat''), (''2'', ''dog'')]" "1 / 10" "[''1.png'']" unlabelled_world 1
      "snd ?run" "''9.png''" "[''2.png'']" "\<lambda>f. Inl FileNotFoundError" "''d/trainLabels.csv''"
      FileNotFoundError]
    h1 h2 h3
  show ?thesis using unlabelled_first_file by simp
qed

text \<open>
  The claim as stated fails for the empty label map: \<open>most_common()[-1]\<close> raises
  \<open>IndexError\<close> before any file is looked at, although the name of the file is not a
  key.
\<close>

theorem empty_label_map_IndexError:
  "stem ''1.png'' \<notin> set (dict_keys ([] :: (string, string) dict)) \<and>
   reorg_train_valid ''d'' [] (1 / 10) [''1.png''] single_world = (Inl IndexError, single_world)"
  by (simp add: reorg_train_valid_empty dict_keys_def)

text \<open>
  C6 (as amended). When no label of the label map contains \<open>/\<close>, then after
  \<open>reorg_train_valid\<close> and \<open>reorg_test\<close>, whether they complete or raise, every path
  that is not under \<open>data_dir/train_valid_test\<close> holds what it held before: nothing
  is added, removed or changed outside that directory, and in particular every
  path under \<open>data_dir/train\<close> and \<open>data_dir/test\<close> is as it was.
\<close>

theorem reorg_keeps_originals:
  assumes "\<forall>l \<in> set (dict_values labels). CHR ''/'' \<notin> set l"
    and "reorg_train_valid D labels r train_files w = (res1, w1)"
    and "reorg_test D test_files w1 = (res2, w2)"
  shows "(\<forall>p. \<not> under_train_valid_test D p \<longrightarrow> files w2 p = files w p) \<and>
         (\<forall>p. under_dir D ''train'' p \<or> under_dir D ''test'' p \<longrightarrow> files w2 p = files w p)"
proof -
  have nonabs: "\<forall>l \<in> set (dict_values labels). \<not> absolute l"
  proof
    fix l assume "l \<in> set (dict_values labels)"
    with assms(1) have "CHR ''/'' \<notin> set l" by simp
    then show "\<not> absolute l" by (cases l) (auto simp: absolute_def)
  qed
  have frame: "files w2 p = files w p" if "\<not> under_train_valid_test D p" for p
    using reorg_train_valid_frame [OF nonabs assms(2) that] reorg_test_frame [OF assms(3) that]
    by simp
  then show ?thesis using under_dir_not_tvt by blast
qed

theorem reorg_keeps_originals_witness:
  "under_dir ''d'' ''train'' ''d/train/1.png'' \<and> under_dir ''d'' ''test'' ''d/test/1.png'' \<and>
   files (snd (reorg_test ''d'' [''1.png'']
            (snd (reorg_train_valid ''d'' [(''1'', ''cat''), (''2'', ''dog''), (''3'', ''cat'')]
                    (1 / 10) [''1.png'', ''2.png'', ''3.png''] cifar_world))))
     ''d/train/1.png'' = Some 11 \<and>
   files (snd (reorg_test ''d'' [''1.png'']
            (snd (reorg_train_valid ''d'' [(''1'', ''cat''), (''2'', ''dog''), (''3'', ''cat'')]
                    (1 / 10) [''1.png'', ''2.png'', ''3.png''] cifar_world))))
     ''d/test/1.png'' = Some 21"
proof -
  let ?labels = "[(''1'', ''cat''), (''2'', ''dog''), (''3'', ''cat'')]"
  let ?r1 = "reorg_train_valid ''d'' ?labels (1 / 10) [''1.png'', ''2.png'', ''3.png''] cifar_world"
  let ?r2 = "reorg_test ''d'' [''1.png''] (snd ?r1)"
  have h1: "\<forall>l \<in> set (dict_values ?labels). CHR ''/'' \<notin> set l"
    by (simp add: dict_values_def)
  have h2: "?r1 = (fst ?r1, snd ?r1)" and h3: "?r2 = (fst ?r2, snd ?r2)" by simp_all
  have u: "under_dir ''d'' ''train'' ''d/train/1.png''" "under_dir ''d'' ''test'' ''d/test/1.png''"
    by (simp_all add: under_dir_def os_path_join.simps)
  from reorg_keeps_originals [OF h1 h2 h3] u
  have "files (snd ?r2) ''d/train/1.png'' = files cifar_world ''d/train/1.png''"
    "files (snd ?r2) ''d/test/1.png'' = files cifar_world ''d/test/1.png''"
    by blast+
  then show ?thesis using u by (simp add: cifar_world_def)
qed

text \<open>
  The claim as stated fails for a label with \<open>/\<close>: with the label \<open>/d/test\<close> the
  training file \<open>5.png\<close> is copied over the test file of the same name, and both
  functions complete.
\<close>

theorem reorg_overwrites_test_file:
  "fst (reorg_train_valid ''/d'' [(''5'', ''/d/test'')] (1 / 10) [''5.png''] absolute_world) = Inr 1 \<and>
   fst (reorg_test ''/d'' [''5.png'']
          (snd (reorg_train_valid ''/d'' [(''5'', ''/d/test'')] (1 / 10) [''5.png'']
                  absolute_world))) = Inr () \<and>
   under_dir ''/d'' ''test'' ''/d/test/5.png'' \<and>
   files absolute_world ''/d/test/5.png'' = Some 2 \<and>
   files (snd (reorg_test ''/d'' [''5.png'']
          (snd (reorg_train_valid ''/d'' [(''5'', ''/d/test'')] (1 / 10) [''5.png'']
                  absolute_world)))) ''/d/test/5.png'' = Some 1"
  by (simp add: reorg_train_valid_def dict_values_def counter_def most_common_def
      dict_get_default_def dict_get_def loop_unfold label_of_def stem_def
      train_path_def class_dir_def os_path_join.simps copyfile_def shutil_copy_def
      basename_def absolute_world_def under_dir_def Let_def)

end
